theory Spec2Isabelle
  imports Main
begin

section \<open>Data model\<close>

text \<open>
  The three entities of the tournament. \<open>AddTournamentForm.tsx\<close> builds a Player as
  \<open>{ id: i, name: player, points: 0 }\<close> and reads \<open>round.id\<close>, \<open>round.pairs\<close> and
  \<open>pair.id\<close>; the two player slots of a Pair are those of the data model, the second one
  absent for a bye. The three \<open>id\<close> fields are told apart by a prefix.
\<close>

record Player =
  player_id :: nat
  name :: string
  points :: int

record Pair =
  pair_id :: nat
  player1 :: Player
  player2 :: "Player option"

record Round =
  round_id :: nat
  pairs :: "Pair list"

datatype pointSystem = football | chess | basketball

section \<open>The form schema\<close>

subsection \<open>Splitting a string\<close>

text \<open>
  \<open>value.split(";")\<close>: the pieces between the occurrences of the separator. There is always
  at least one piece, and a separator at either end gives an empty piece there.
\<close>

fun js_split :: "'a \<Rightarrow> 'a list \<Rightarrow> 'a list list" where
  "js_split sep [] = [[]]"
| "js_split sep (c # cs) =
     (if c = sep then [] # js_split sep cs
      else (case js_split sep cs of
              [] \<Rightarrow> [[c]]
            | w # ws \<Rightarrow> (c # w) # ws))"

text \<open>\<open>pieces.join(";")\<close>, the inverse of splitting; it serves to validate \<open>js_split\<close>.\<close>

fun js_join :: "'a \<Rightarrow> 'a list list \<Rightarrow> 'a list" where
  "js_join sep [] = []"
| "js_join sep [w] = w"
| "js_join sep (w # v # ws) = w @ sep # js_join sep (v # ws)"

subsection \<open>The players field\<close>

text \<open>
  \<open>z.string().includes(";", ...).refine(...)\<close>: each check that fails contributes its message,
  and the field is accepted when no check has failed.
\<close>

definition players_includes :: "string \<Rightarrow> bool" where
  "players_includes value = (CHR '';'' \<in> set value)"

definition players_refine :: "string \<Rightarrow> bool" where
  "players_refine value =
     (length (js_split CHR '';'' value) \<ge> 4 \<and>
      length (js_split CHR '';'' value) \<le> 8 \<and>
      list_all (\<lambda>player. length player > 0) (js_split CHR '';'' value))"

definition players_issues :: "string \<Rightarrow> string list" where
  "players_issues value =
     (if players_includes value then []
      else [''Players must be separated by a semicolon (;)'']) @
     (if players_refine value then []
      else [''Tournament must have at least 4 players and at most 8 players''])"

definition players_accepted :: "string \<Rightarrow> bool" where
  "players_accepted value = (players_issues value = [])"

subsection \<open>The title field\<close>

text \<open>
  The two Firestore calls of the refinement can each throw. \<open>doc(db, "tournaments", newSlug)\<close>
  checks the path it is given and throws on one that names no document, an empty slug for
  one; \<open>getDoc\<close> either throws or returns a snapshot, of which only \<open>exists()\<close> is read. Both
  are third-party functions, as \<open>slugify\<close> is, and stay parameters: \<open>doc\<close> takes the path
  segments to a reference or an error, \<open>getDoc\<close> a reference to \<open>exists()\<close> or an error.
\<close>

datatype firestore_error = FirestoreError

type_synonym docref = "string list"

type_synonym firestore_doc = "string list \<Rightarrow> firestore_error + docref"

type_synonym firestore = "docref \<Rightarrow> firestore_error + bool"

text \<open>
  The asynchronous refinement of the title. \<open>doc\<close> is called before the \<open>try\<close>, so its
  exception leaves the callback and there is no verdict; the exception of \<open>getDoc\<close> is caught
  and answered with false. The result holds the verdict or the exception that escaped, the
  slug stored through \<open>setSlug\<close> before either call, and whether the console was written to.
\<close>

record refine_result =
  verdict :: "firestore_error + bool"
  slug_set :: string
  console_error :: bool

definition title_refine ::
  "(string \<Rightarrow> string) \<Rightarrow> firestore_doc \<Rightarrow> firestore \<Rightarrow> string \<Rightarrow> refine_result" where
  "title_refine slugify doc getDoc value =
     (if length value = 0 then \<lparr>verdict = Inr False, slug_set = '''', console_error = False\<rparr>
      else
        let newSlug = slugify value in
        (case doc [''tournaments'', newSlug] of
           Inl thrown \<Rightarrow> \<lparr>verdict = Inl thrown, slug_set = newSlug, console_error = False\<rparr>
         | Inr tournamentRef \<Rightarrow>
             (case getDoc tournamentRef of
                Inr tournamentSnapshot_exists \<Rightarrow>
                  (if tournamentSnapshot_exists
                   then \<lparr>verdict = Inr False, slug_set = newSlug, console_error = False\<rparr>
                   else \<lparr>verdict = Inr True, slug_set = newSlug, console_error = False\<rparr>)
              | Inl error \<Rightarrow>
                  \<lparr>verdict = Inr False, slug_set = newSlug, console_error = True\<rparr>)))"

text \<open>
  The issues of the title: the length check, then the refinement. When the refinement
  throws, so does the validation, and there are no issues to report.
\<close>

definition title_issues ::
  "(string \<Rightarrow> string) \<Rightarrow> firestore_doc \<Rightarrow> firestore \<Rightarrow> string \<Rightarrow>
   firestore_error + string list" where
  "title_issues slugify doc getDoc value =
     (case verdict (title_refine slugify doc getDoc value) of
        Inl thrown \<Rightarrow> Inl thrown
      | Inr refined \<Rightarrow>
          Inr ((if length value \<ge> 3 then []
                else [''Tournament title must be at least 3 characters long'']) @
               (if refined then [] else [''Choose a different title''])))"

definition title_accepted ::
  "(string \<Rightarrow> string) \<Rightarrow> firestore_doc \<Rightarrow> firestore \<Rightarrow> string \<Rightarrow> bool" where
  "title_accepted slugify doc getDoc value = (title_issues slugify doc getDoc value = Inr [])"

subsection \<open>The point system and the whole schema\<close>

text \<open>The raw form values; an unselected point system is \<open>None\<close>.\<close>

record form_values =
  title_field :: string
  players_field :: string
  pointSystem_field :: "pointSystem option"

text \<open>\<open>z.infer<typeof schema>\<close>, the values handed to \<open>onSubmit\<close>.\<close>

record submit_values =
  values_title :: string
  values_players :: string
  values_pointSystem :: pointSystem

definition pointSystem_issues :: "pointSystem option \<Rightarrow> string list" where
  "pointSystem_issues v =
     (case v of None \<Rightarrow> [''You must select a point system''] | Some _ \<Rightarrow> [])"

text \<open>
  Parsing the three fields: the exception of the title's refinement, or the issues of all
  fields, or, when there are none, the values.
\<close>

datatype parse_result =
  Parse_throws firestore_error
| Parse_issues "string list"
| Parse_values submit_values

definition schema_parse ::
  "(string \<Rightarrow> string) \<Rightarrow> firestore_doc \<Rightarrow> firestore \<Rightarrow> form_values \<Rightarrow> parse_result" where
  "schema_parse slugify doc getDoc raw =
     (case title_issues slugify doc getDoc (title_field raw) of
        Inl thrown \<Rightarrow> Parse_throws thrown
      | Inr of_title \<Rightarrow>
          (let issues = of_title @ players_issues (players_field raw) @
                        pointSystem_issues (pointSystem_field raw)
           in case pointSystem_field raw of
                None \<Rightarrow> Parse_issues issues
              | Some ps \<Rightarrow>
                  (if issues = []
                   then Parse_values \<lparr>values_title = title_field raw,
                                       values_players = players_field raw,
                                       values_pointSystem = ps\<rparr>
                   else Parse_issues issues)))"

section \<open>Submitting the form\<close>

text \<open>
  \<open>onSubmit\<close> returns nothing; what it does is the sequence of its calls to its
  collaborators, in order.
\<close>

record user =
  sub :: string

record tournament =
  slug :: string
  title :: string
  userSub :: string
  players :: "Player list"
  pointSystem :: pointSystem
  timestamp :: int

datatype document =
  Tournament_doc tournament
| Round_doc nat
| Pair_doc Pair

datatype event =
  Toast_error string
| Scheduler_call "Player list"
| Batch_set "string list" document
| Batch_commit
| Toast_promise
| Close_click
| Router_refresh
| Console_error

text \<open>What \<open>onSubmit\<close> reads from outside: the clock, and how the commit and the ref turn out.\<close>

record environment =
  now_millis :: int
  commit_succeeds :: bool
  closeRef_current :: bool

text \<open>\<open>Number.prototype.toString\<close> on the round and pair ids, which are naturals.\<close>

fun toString :: "nat \<Rightarrow> string" where
  "toString n =
     (if n < 10 then [''0123456789'' ! n]
      else toString (n div 10) @ [''0123456789'' ! (n mod 10)])"

declare toString.simps [simp del]

definition formattedPlayers :: "string \<Rightarrow> Player list" where
  "formattedPlayers players_value =
     map (\<lambda>(i, player). \<lparr>player_id = i, name = player, points = 0\<rparr>)
         (enumerate 0 (js_split CHR '';'' players_value))"

definition numberOfRounds :: "nat \<Rightarrow> nat" where
  "numberOfRounds n =
     (if n = 8 \<or> n = 7 then 7
      else if n = 6 \<or> n = 5 then 5
      else 3)"

definition round_writes :: "string \<Rightarrow> Round \<Rightarrow> event list" where
  "round_writes tournament_slug round =
     Batch_set [''tournaments'', tournament_slug, ''rounds'', toString (round_id round)]
               (Round_doc (round_id round)) #
     map (\<lambda>pair.
            Batch_set [''tournaments'', tournament_slug, ''rounds'', toString (round_id round),
                       ''pairs'', toString (pair_id pair)]
                      (Pair_doc pair))
         (pairs round)"

text \<open>
  The part of \<open>onSubmit\<close> after the \<open>switch\<close>, as a function of the two locals in scope
  there. The scheduler is imported from another module and is a parameter; it is taken to
  return its rounds and to leave the list it is given as it was, which is what the
  specification requires of it.
\<close>

definition onSubmit_rest ::
  "(Player list \<Rightarrow> Round list) \<Rightarrow> environment \<Rightarrow> user \<Rightarrow> string \<Rightarrow> submit_values \<Rightarrow>
   Player list \<Rightarrow> nat \<Rightarrow> event list" where
  "onSubmit_rest roundRobin env usr slug_state values formatted number_of_rounds =
     (let rounds = roundRobin formatted;
          tournament = \<lparr>slug = slug_state, title = values_title values, userSub = sub usr,
                        players = formatted, pointSystem = values_pointSystem values,
                        timestamp = now_millis env\<rparr>
      in [Scheduler_call formatted] @
         [Batch_set [''tournaments'', slug tournament] (Tournament_doc tournament)] @
         concat (map (round_writes (slug tournament)) rounds) @
         [Batch_commit, Toast_promise] @
         (if commit_succeeds env
          then (if closeRef_current env then [Close_click] else []) @ [Router_refresh]
          else [Console_error]))"

definition onSubmit ::
  "(Player list \<Rightarrow> Round list) \<Rightarrow> environment \<Rightarrow> user option \<Rightarrow> string \<Rightarrow> submit_values \<Rightarrow>
   event list" where
  "onSubmit roundRobin env usr slug_state values =
     (case usr of
        None \<Rightarrow> [Toast_error ''You must be logged in to create a tournament.'']
      | Some u \<Rightarrow>
          (let formatted = formattedPlayers (values_players values);
               number_of_rounds = numberOfRounds (length formatted)
           in onSubmit_rest roundRobin env u slug_state values formatted number_of_rounds))"

text \<open>
  \<open>form.handleSubmit(onSubmit)\<close>: the handler runs only on values the schema accepts. An
  exception of the validation leaves \<open>handleSubmit\<close> before the handler is reached.
\<close>

definition handleSubmit ::
  "(string \<Rightarrow> string) \<Rightarrow> firestore_doc \<Rightarrow> firestore \<Rightarrow> (Player list \<Rightarrow> Round list) \<Rightarrow>
   environment \<Rightarrow> user option \<Rightarrow> string \<Rightarrow> form_values \<Rightarrow> firestore_error + event list" where
  "handleSubmit slugify doc getDoc roundRobin env usr slug_state raw =
     (case schema_parse slugify doc getDoc raw of
        Parse_throws thrown \<Rightarrow> Inl thrown
      | Parse_issues issues \<Rightarrow> Inr []
      | Parse_values values \<Rightarrow> Inr (onSubmit roundRobin env usr slug_state values))"

text \<open>The events that reach the scheduler or the database.\<close>

fun is_scheduler_call :: "event \<Rightarrow> bool" where
  "is_scheduler_call (Scheduler_call _) = True"
| "is_scheduler_call _ = False"

fun is_persistence_write :: "event \<Rightarrow> bool" where
  "is_persistence_write (Batch_set _ _) = True"
| "is_persistence_write Batch_commit = True"
| "is_persistence_write _ = False"

section \<open>The round-robin scheduler\<close>

text \<open>
  Modelled from the spec: \<open>roundRobinTournament\<close>, which \<open>AddTournamentForm.tsx\<close> imports from
  \<open>@/lib/utils\<close>; that module is not among the sources. The definitions of this section
  follow the six steps of the circle method in the words of the specification.
\<close>

text \<open>
  Modelled from the spec: step 1, the circle of the players, with one placeholder (\<open>None\<close>)
  when their number is odd. The specification does not say where the placeholder sits; it is
  put last here.
\<close>

definition circle :: "Player list \<Rightarrow> Player option list" where
  "circle ps = map Some ps @ (if odd (length ps) then [None] else [])"

text \<open>
  Modelled from the spec: step 3, the positions paired in one round of a circle of \<open>n\<close>
  seats: position 0 with the opposite seat, then position \<open>i\<close> with position \<open>n - i\<close> for
  \<open>i = 1 .. n/2 - 1\<close>.
\<close>

definition slots :: "nat \<Rightarrow> (nat \<times> nat) list" where
  "slots n = (0, n div 2) # map (\<lambda>i. (i, n - i)) [1..<n div 2]"

text \<open>
  Modelled from the spec: step 1, second half. A player seated against the placeholder
  receives a bye, a pairing whose second player is absent, in the place of the pairing of the
  two seats; the placeholder itself never appears in the output. A round of an odd number
  of players so holds one pairing of two players less, and one bye.
\<close>

fun seat_pair :: "Player option \<Rightarrow> Player option \<Rightarrow> (Player \<times> Player option) option" where
  "seat_pair (Some a) b = Some (a, b)"
| "seat_pair None (Some b) = Some (b, None)"
| "seat_pair None None = None"

fun seat_all :: "Player option list \<Rightarrow> (nat \<times> nat) list \<Rightarrow> (Player \<times> Player option) list" where
  "seat_all c [] = []"
| "seat_all c ((i, j) # ss) =
     (case seat_pair (c ! i) (c ! j) of
        None \<Rightarrow> seat_all c ss
      | Some m \<Rightarrow> m # seat_all c ss)"

text \<open>
  Modelled from the spec: step 5, \<open>Pair.id\<close> is the 0-based index of the pair in the order of
  generation.
\<close>

definition number_pairs :: "(Player \<times> Player option) list \<Rightarrow> Pair list" where
  "number_pairs ms =
     map (\<lambda>(k, (a, b)). \<lparr>pair_id = k, player1 = a, player2 = b\<rparr>) (enumerate 0 ms)"

text \<open>
  Modelled from the spec: steps 3 and 6, the round of index \<open>r\<close> on the circle as it stands,
  with \<open>Round.id = r + 1\<close>.
\<close>

definition make_round :: "nat \<Rightarrow> Player option list \<Rightarrow> Round" where
  "make_round r c =
     \<lparr>round_id = r + 1, pairs = number_pairs (seat_all c (slots (length c)))\<rparr>"

text \<open>
  Modelled from the spec: step 4, the rotation. Position 0 stays; position 1 takes the
  occupant of the last position and every other occupant moves up by one.
\<close>

definition rotate_circle :: "Player option list \<Rightarrow> Player option list" where
  "rotate_circle c =
     (case c of
        [] \<Rightarrow> []
      | x # rest \<Rightarrow> (if rest = [] then [x] else x # last rest # butlast rest))"

text \<open>
  Modelled from the spec: the loop over the rounds \<open>r = 0 .. n - 2\<close> of a circle of \<open>n\<close>
  seats, rotating after each round; \<open>k\<close> counts the rounds still to generate.
\<close>

fun gen_rounds :: "nat \<Rightarrow> nat \<Rightarrow> Player option list \<Rightarrow> Round list" where
  "gen_rounds 0 r c = []"
| "gen_rounds (Suc k) r c = make_round r c # gen_rounds k (Suc r) (rotate_circle c)"

text \<open>Modelled from the spec: \<open>schedule(players)\<close>, the function \<open>roundRobinTournament\<close>.\<close>

definition roundRobinTournament :: "Player list \<Rightarrow> Round list" where
  "roundRobinTournament ps = (let c = circle ps in gen_rounds (length c - 1) 0 c)"

section \<open>Properties of a schedule\<close>

text \<open>The player ids of a pairing, of a round, and all pairings of a schedule.\<close>

definition pair_ids :: "Pair \<Rightarrow> nat list" where
  "pair_ids pr =
     player_id (player1 pr) # (case player2 pr of None \<Rightarrow> [] | Some q \<Rightarrow> [player_id q])"

definition round_player_ids :: "Round \<Rightarrow> nat list" where
  "round_player_ids r = concat (map pair_ids (pairs r))"

definition all_pairs :: "Round list \<Rightarrow> Pair list" where
  "all_pairs sched = concat (map pairs sched)"

definition is_bye :: "Pair \<Rightarrow> bool" where
  "is_bye pr = (player2 pr = None)"

definition real_pairings :: "Round list \<Rightarrow> Pair list" where
  "real_pairings sched = filter (\<lambda>pr. \<not> is_bye pr) (all_pairs sched)"

text \<open>A pairing joins the players of ids \<open>a\<close> and \<open>b\<close>, in either order.\<close>

definition joins :: "nat \<Rightarrow> nat \<Rightarrow> Pair \<Rightarrow> bool" where
  "joins a b pr =
     (case player2 pr of
        None \<Rightarrow> False
      | Some q \<Rightarrow> (player_id (player1 pr) = a \<and> player_id q = b) \<or>
                  (player_id (player1 pr) = b \<and> player_id q = a))"

definition meetings :: "nat \<Rightarrow> nat \<Rightarrow> Round list \<Rightarrow> nat" where
  "meetings a b sched = length (filter (joins a b) (all_pairs sched))"

definition byes_of :: "nat \<Rightarrow> Round list \<Rightarrow> nat" where
  "byes_of a sched =
     length (filter (\<lambda>pr. is_bye pr \<and> player_id (player1 pr) = a) (all_pairs sched))"

definition byes_in :: "Round \<Rightarrow> nat" where
  "byes_in r = length (filter is_bye (pairs r))"

text \<open>
  Renaming the players of a schedule, and the players \<open>0 .. n - 1\<close> on which the schedule
  of every list of \<open>n\<close> players is a renaming.
\<close>

definition rename_pair ::
  "(Player \<Rightarrow> Player) \<Rightarrow> Player \<times> Player option \<Rightarrow> Player \<times> Player option" where
  "rename_pair f m = (f (fst m), map_option f (snd m))"

definition map_Pair :: "(Player \<Rightarrow> Player) \<Rightarrow> Pair \<Rightarrow> Pair" where
  "map_Pair f pr =
     \<lparr>pair_id = pair_id pr, player1 = f (player1 pr), player2 = map_option f (player2 pr)\<rparr>"

definition map_Round :: "(Player \<Rightarrow> Player) \<Rightarrow> Round \<Rightarrow> Round" where
  "map_Round f r = \<lparr>round_id = round_id r, pairs = map (map_Pair f) (pairs r)\<rparr>"

definition seat :: "nat \<Rightarrow> Player" where
  "seat i = \<lparr>player_id = i, name = [], points = 0\<rparr>"

definition seats :: "nat \<Rightarrow> Player list" where
  "seats n = map seat [0..<n]"

text \<open>The properties of a schedule for \<open>n\<close> players with ids \<open>0 .. n - 1\<close>, as one test.\<close>

definition pairs_proper :: "nat \<Rightarrow> Round list \<Rightarrow> bool" where
  "pairs_proper n sched =
     list_all (\<lambda>pr. distinct (pair_ids pr) \<and> list_all (\<lambda>i. i < n) (pair_ids pr))
       (all_pairs sched)"

definition rounds_disjoint :: "Round list \<Rightarrow> bool" where
  "rounds_disjoint sched = list_all (\<lambda>r. distinct (round_player_ids r)) sched"

definition meet_once :: "nat \<Rightarrow> Round list \<Rightarrow> bool" where
  "meet_once n sched =
     list_all (\<lambda>a. list_all (\<lambda>b. a = b \<or> meetings a b sched = 1) [0..<n]) [0..<n]"

definition one_bye_each :: "nat \<Rightarrow> Round list \<Rightarrow> bool" where
  "one_bye_each n sched =
     (list_all (\<lambda>a. byes_of a sched = 1) [0..<n] \<and> list_all (\<lambda>r. byes_in r = 1) sched)"

definition schedule_test :: "nat \<Rightarrow> Round list \<Rightarrow> bool" where
  "schedule_test n sched =
     (pairs_proper n sched \<and> rounds_disjoint sched \<and> meet_once n sched \<and>
      length (real_pairings sched) = n * (n - 1) div 2 \<and>
      (if odd n then one_bye_each n sched else True))"

section \<open>Example inputs\<close>

definition four_players :: "Player list" where
  "four_players =
     [\<lparr>player_id = 0, name = ''Ann'', points = 0\<rparr>, \<lparr>player_id = 1, name = ''Bob'', points = 0\<rparr>,
      \<lparr>player_id = 2, name = ''Cy'', points = 0\<rparr>, \<lparr>player_id = 3, name = ''Di'', points = 0\<rparr>]"

definition five_players :: "Player list" where
  "five_players = four_players @ [\<lparr>player_id = 4, name = ''Ed'', points = 0\<rparr>]"

definition cup_values :: submit_values where
  "cup_values = \<lparr>values_title = ''Cup'', values_players = ''Ann;Bob;Cy;Di'',
                 values_pointSystem = chess\<rparr>"

definition cup_form :: form_values where
  "cup_form = \<lparr>title_field = ''Cup'', players_field = ''Ann;Bob;Cy;Di'',
               pointSystem_field = Some chess\<rparr>"

definition cup_environment :: environment where
  "cup_environment =
     \<lparr>now_millis = 1700000000000, commit_succeeds = True, closeRef_current = True\<rparr>"

text \<open>
  A \<open>doc\<close> that refuses an empty path segment, a \<open>slugify\<close> that drops exclamation marks as
  the \<open>remove\<close> option does, and two databases: one holding the tournament \<open>taken\<close>, one
  whose lookups throw.
\<close>

definition checked_doc :: firestore_doc where
  "checked_doc segments = (if [] \<in> set segments then Inl FirestoreError else Inr segments)"

definition drop_bangs :: "string \<Rightarrow> string" where
  "drop_bangs s = filter (\<lambda>c. c \<noteq> CHR ''!'') s"

definition taken_titles :: firestore where
  "taken_titles tournamentRef = Inr (tournamentRef = [''tournaments'', ''taken''])"

definition failing_lookup :: firestore where
  "failing_lookup tournamentRef = Inl FirestoreError"

section \<open>Splitting and joining\<close>

lemma js_split_not_Nil: "js_split sep s \<noteq> []"
  by (induction s) (auto split: list.splits)

lemma js_join_split: "js_join sep (js_split sep s) = s"
proof (induction s)
  case Nil
  show ?case by simp
next
  case (Cons c cs)
  obtain w ws where "js_split sep cs = w # ws"
    using js_split_not_Nil [of sep cs] by (cases "js_split sep cs") auto
  with Cons show ?case by (cases ws) auto
qed

lemma js_split_no_sep: "w \<in> set (js_split sep s) \<Longrightarrow> sep \<notin> set w"
  by (induction s arbitrary: w) (auto split: if_splits list.splits)

lemma length_js_split: "length (js_split sep s) = Suc (length (filter (\<lambda>c. c = sep) s))"
  by (induction s) (auto split: list.splits simp: js_split_not_Nil)

lemma js_split_join:
  "ws \<noteq> [] \<Longrightarrow> \<forall>w\<in>set ws. sep \<notin> set w \<Longrightarrow> js_split sep (js_join sep ws) = ws"
proof (induction sep ws rule: js_join.induct)
  case (1 sep)
  then show ?case by simp
next
  case (2 sep w)
  then show ?case by (induction w) auto
next
  case (3 sep w v ws)
  then have "js_split sep (js_join sep (v # ws)) = v # ws" by simp
  with "3.prems" show ?case by (induction w) auto
qed

lemma js_split_two_has_sep:
  assumes "2 \<le> length (js_split sep s)"
  shows "sep \<in> set s"
proof -
  from assms have "filter (\<lambda>c. c = sep) s \<noteq> []"
    by (auto simp: length_js_split)
  then obtain c where "c \<in> set (filter (\<lambda>c. c = sep) s)"
    by (cases "filter (\<lambda>c. c = sep) s") auto
  then show ?thesis by auto
qed

section \<open>The players field\<close>

text \<open>
  C5. The players field is accepted exactly when the string contains a semicolon and
  splitting it on the semicolon gives between 4 and 8 entries, none of them empty; every
  other string is rejected.
\<close>

theorem players_accepted_iff:
  "players_accepted value \<longleftrightarrow>
     CHR '';'' \<in> set value \<and>
     4 \<le> length (js_split CHR '';'' value) \<and>
     length (js_split CHR '';'' value) \<le> 8 \<and>
     (\<forall>player\<in>set (js_split CHR '';'' value). player \<noteq> [])"
  by (auto simp: players_accepted_def players_issues_def players_includes_def players_refine_def
      list_all_iff)

theorem players_accepted_iff_witness:
  "players_accepted ''Ann;Bob;Cy;Di'' \<and> \<not> players_accepted ''Ann;Bob;Cy'' \<and>
   \<not> players_accepted ''Ann;;Cy;Di'' \<and> \<not> players_accepted ''Ann'' \<and>
   \<not> players_accepted ''a;b;c;d;e;f;g;h;i'' \<and> players_accepted ''a;b;c;d;e;f;g;h''"
  using players_accepted_iff [of "''Ann;Bob;Cy;Di''"] players_accepted_iff [of "''Ann;Bob;Cy''"]
    players_accepted_iff [of "''Ann;;Cy;Di''"] players_accepted_iff [of "''Ann''"]
    players_accepted_iff [of "''a;b;c;d;e;f;g;h;i''"] players_accepted_iff [of "''a;b;c;d;e;f;g;h''"]
  by simp

text \<open>
  The same acceptance without reference to the splitting function: the accepted strings are
  the 4 to 8 non-empty, semicolon-free entries joined by semicolons.
\<close>

lemma players_accepted_entries:
  "players_accepted value \<longleftrightarrow>
     (\<exists>entries. value = js_join CHR '';'' entries \<and> 4 \<le> length entries \<and> length entries \<le> 8 \<and>
                (\<forall>e\<in>set entries. e \<noteq> [] \<and> CHR '';'' \<notin> set e))"
proof
  assume accepted: "players_accepted value"
  let ?es = "js_split CHR '';'' value"
  from accepted have "4 \<le> length ?es" "length ?es \<le> 8" "\<forall>e\<in>set ?es. e \<noteq> []"
    by (auto simp: players_accepted_def players_issues_def players_refine_def list_all_iff
        split: if_splits)
  moreover have "value = js_join CHR '';'' ?es"
    by (simp add: js_join_split)
  moreover have "\<forall>e\<in>set ?es. CHR '';'' \<notin> set e"
    by (simp add: js_split_no_sep)
  ultimately show "\<exists>entries. value = js_join CHR '';'' entries \<and> 4 \<le> length entries \<and>
      length entries \<le> 8 \<and> (\<forall>e\<in>set entries. e \<noteq> [] \<and> CHR '';'' \<notin> set e)"
    by blast
next
  assume "\<exists>entries. value = js_join CHR '';'' entries \<and> 4 \<le> length entries \<and>
      length entries \<le> 8 \<and> (\<forall>e\<in>set entries. e \<noteq> [] \<and> CHR '';'' \<notin> set e)"
  then obtain entries where es: "value = js_join CHR '';'' entries" "4 \<le> length entries"
      "length entries \<le> 8" "\<forall>e\<in>set entries. e \<noteq> [] \<and> CHR '';'' \<notin> set e"
    by blast
  from es(2) have "entries \<noteq> []" by auto
  with es have pieces: "js_split CHR '';'' value = entries"
    by (simp add: js_split_join)
  with es(2) have "CHR '';'' \<in> set value"
    by (intro js_split_two_has_sep) simp
  with es pieces show "players_accepted value"
    by (simp add: players_accepted_def players_issues_def players_includes_def
        players_refine_def list_all_iff)
qed

section \<open>The player list\<close>

lemma formattedPlayers_length:
  "length (formattedPlayers v) = length (js_split CHR '';'' v)"
  by (simp add: formattedPlayers_def)

lemma formattedPlayers_nth:
  "i < length (js_split CHR '';'' v) \<Longrightarrow>
   formattedPlayers v ! i = \<lparr>player_id = i, name = js_split CHR '';'' v ! i, points = 0\<rparr>"
  by (simp add: formattedPlayers_def nth_enumerate_eq)

lemma formattedPlayers_ids:
  "map player_id (formattedPlayers v) = [0..<length (js_split CHR '';'' v)]"
  by (rule nth_equalityI) (simp_all add: formattedPlayers_length formattedPlayers_nth)

text \<open>
  What the schema lets through meets what the scheduler expects: 4 to 8 players, whose ids
  are their positions, with non-empty names and no points.
\<close>

lemma accepted_players_well_formed:
  assumes "players_accepted v"
  shows "4 \<le> length (formattedPlayers v) \<and> length (formattedPlayers v) \<le> 8 \<and>
         map player_id (formattedPlayers v) = [0..<length (formattedPlayers v)] \<and>
         distinct (map player_id (formattedPlayers v)) \<and>
         (\<forall>p\<in>set (formattedPlayers v). name p \<noteq> [] \<and> points p = 0)"
proof -
  let ?es = "js_split CHR '';'' v"
  from assms have es: "4 \<le> length ?es" "length ?es \<le> 8" "\<forall>e\<in>set ?es. e \<noteq> []"
    by (auto simp: players_accepted_def players_issues_def players_refine_def list_all_iff
        split: if_splits)
  have "name p \<noteq> [] \<and> points p = 0" if "p \<in> set (formattedPlayers v)" for p
  proof -
    from that obtain i where i: "i < length ?es" "p = formattedPlayers v ! i"
      by (auto simp: in_set_conv_nth formattedPlayers_length)
    then have "name p = ?es ! i" "points p = 0"
      by (simp_all add: formattedPlayers_nth)
    moreover from i es(3) have "?es ! i \<noteq> []"
      by (simp add: nth_mem del: length_greater_0_conv)
    ultimately show ?thesis by simp
  qed
  with es show ?thesis
    by (simp add: formattedPlayers_length formattedPlayers_ids)
qed

lemma onSubmit_Some:
  "onSubmit roundRobin env (Some u) slug_state values =
     onSubmit_rest roundRobin env u slug_state values (formattedPlayers (values_players values))
       (numberOfRounds (length (formattedPlayers (values_players values))))"
  by (simp add: onSubmit_def Let_def)

text \<open>All that \<open>onSubmit\<close> does for a signed-in user, in order.\<close>

lemma onSubmit_round_documents:
  "onSubmit roundRobin env (Some u) slug_state values =
     Scheduler_call (formattedPlayers (values_players values)) #
     Batch_set [''tournaments'', slug_state]
       (Tournament_doc \<lparr>slug = slug_state, title = values_title values, userSub = sub u,
          players = formattedPlayers (values_players values),
          pointSystem = values_pointSystem values, timestamp = now_millis env\<rparr>) #
     concat (map (round_writes slug_state) (roundRobin (formattedPlayers (values_players values)))) @
     [Batch_commit, Toast_promise] @
     (if commit_succeeds env
      then (if closeRef_current env then [Close_click] else []) @ [Router_refresh]
      else [Console_error])"
  by (simp add: onSubmit_Some onSubmit_rest_def Let_def)

text \<open>
  C6. For a signed-in user, \<open>onSubmit\<close> hands the scheduler the list built from the players
  string by splitting on the semicolon: it has one Player per entry, and the Player at
  position \<open>i\<close> has id \<open>i\<close>, the \<open>i\<close>-th entry as its name and 0 points.
\<close>

theorem formattedPlayers_by_position:
  "(\<exists>rest. onSubmit roundRobin env (Some u) slug_state values =
            Scheduler_call (formattedPlayers (values_players values)) # rest) \<and>
   length (formattedPlayers (values_players values)) =
     length (js_split CHR '';'' (values_players values)) \<and>
   (\<forall>i < length (js_split CHR '';'' (values_players values)).
      formattedPlayers (values_players values) ! i =
        \<lparr>player_id = i, name = js_split CHR '';'' (values_players values) ! i, points = 0\<rparr>)"
  by (simp add: onSubmit_Some onSubmit_rest_def Let_def formattedPlayers_length
      formattedPlayers_nth)

theorem formattedPlayers_by_position_witness:
  "players_accepted (values_players cup_values) \<and>
   length (formattedPlayers (values_players cup_values)) = 4 \<and>
   formattedPlayers (values_players cup_values) ! 2 = \<lparr>player_id = 2, name = ''Cy'', points = 0\<rparr>"
proof -
  note f = formattedPlayers_by_position [of roundRobinTournament cup_environment
      "\<lparr>sub = ''auth0|1''\<rparr>" "''cup''" cup_values]
  have pieces: "js_split CHR '';'' (values_players cup_values) = [''Ann'', ''Bob'', ''Cy'', ''Di'']"
    by (simp add: cup_values_def)
  from f have "\<forall>i < length (js_split CHR '';'' (values_players cup_values)).
      formattedPlayers (values_players cup_values) ! i =
        \<lparr>player_id = i, name = js_split CHR '';'' (values_players cup_values) ! i, points = 0\<rparr>"
    by blast
  then have "formattedPlayers (values_players cup_values) ! 2 =
        \<lparr>player_id = 2, name = js_split CHR '';'' (values_players cup_values) ! 2, points = 0\<rparr>"
    by (simp add: pieces)
  moreover have "players_accepted (values_players cup_values)"
    by (simp add: players_accepted_def players_issues_def players_includes_def players_refine_def
        pieces) (simp add: cup_values_def)
  ultimately show ?thesis using f by (simp add: pieces)
qed

section \<open>The title field\<close>

text \<open>When the title is accepted, in full; and when its validation throws instead.\<close>

lemma title_accepted_iff:
  "title_accepted slugify doc getDoc t \<longleftrightarrow>
     3 \<le> length t \<and>
     (\<exists>tournamentRef. doc [''tournaments'', slugify t] = Inr tournamentRef \<and>
                      getDoc tournamentRef = Inr False)"
  by (auto simp: title_accepted_def title_issues_def title_refine_def Let_def
      split: sum.splits if_splits)

lemma title_validation_throws:
  "title_issues slugify doc getDoc t = Inl thrown \<longleftrightarrow>
     t \<noteq> [] \<and> doc [''tournaments'', slugify t] = Inl thrown"
  by (auto simp: title_issues_def title_refine_def Let_def split: sum.splits if_splits)

lemma handleSubmit_throws:
  assumes "title_field raw \<noteq> []" "doc [''tournaments'', slugify (title_field raw)] = Inl thrown"
  shows "handleSubmit slugify doc getDoc roundRobin env usr slug_state raw = Inl thrown"
proof -
  from assms have "title_issues slugify doc getDoc (title_field raw) = Inl thrown"
    by (simp add: title_validation_throws)
  then show ?thesis
    by (simp add: handleSubmit_def schema_parse_def)
qed

text \<open>A title of three exclamation marks has the empty slug, and its validation throws.\<close>

lemma empty_slug_throws:
  "title_issues drop_bangs checked_doc taken_titles ''!!!'' = Inl FirestoreError \<and>
   \<not> title_accepted drop_bangs checked_doc taken_titles ''!!!''"
proof -
  have "title_issues drop_bangs checked_doc taken_titles ''!!!'' = Inl FirestoreError"
    by (simp add: title_validation_throws drop_bangs_def checked_doc_def)
  then show ?thesis by (simp add: title_accepted_def)
qed



text \<open>
  C10. When \<open>getDoc\<close> throws at the reference of the title's slug, the refinement answers
  false as it does for a duplicate: the issues of the title are those it has against a
  database holding the document, with the message "Choose a different title" among them, the
  title is rejected, and submitting the form runs no part of \<open>onSubmit\<close>.
\<close>

theorem title_lookup_failure:
  assumes "doc [''tournaments'', slugify t] = Inr tournamentRef"
    and "getDoc tournamentRef = Inl e"
  shows "verdict (title_refine slugify doc getDoc t) = Inr False \<and>
         title_issues slugify doc getDoc t = title_issues slugify doc (\<lambda>r. Inr True) t \<and>
         (\<exists>issues. title_issues slugify doc getDoc t = Inr issues \<and>
                   ''Choose a different title'' \<in> set issues) \<and>
         \<not> title_accepted slugify doc getDoc t \<and>
         (title_field raw = t \<longrightarrow>
            handleSubmit slugify doc getDoc roundRobin env usr slug_state raw = Inr [])"
proof -
  from assms have refined: "verdict (title_refine slugify doc getDoc t) = Inr False"
    by (simp add: title_refine_def Let_def)
  from assms have same: "verdict (title_refine slugify doc (\<lambda>r. Inr True) t) = Inr False"
    by (simp add: title_refine_def Let_def)
  from refined have issues: "title_issues slugify doc getDoc t =
      Inr ((if 3 \<le> length t then []
            else [''Tournament title must be at least 3 characters long'']) @
           [''Choose a different title''])"
    by (simp add: title_issues_def)
  from issues have message: "\<exists>issues. title_issues slugify doc getDoc t = Inr issues \<and>
      ''Choose a different title'' \<in> set issues"
    by simp
  from same issues have duplicate: "title_issues slugify doc getDoc t =
      title_issues slugify doc (\<lambda>r. Inr True) t"
    by (simp add: title_issues_def)
  from issues have rejected: "\<not> title_accepted slugify doc getDoc t"
    by (simp add: title_accepted_def)
  from issues
  have "handleSubmit slugify doc getDoc roundRobin env usr slug_state raw = Inr []"
    if "title_field raw = t"
    using that by (simp add: handleSubmit_def schema_parse_def Let_def split: option.splits)
  with refined duplicate message rejected show ?thesis by blast
qed

theorem title_lookup_failure_witness:
  "title_issues drop_bangs checked_doc failing_lookup ''Cup'' =
     Inr [''Choose a different title''] \<and>
   \<not> title_accepted drop_bangs checked_doc failing_lookup ''Cup'' \<and>
   handleSubmit drop_bangs checked_doc failing_lookup roundRobinTournament cup_environment
     (Some \<lparr>sub = ''auth0|1''\<rparr>) ''cup'' cup_form = Inr []"
proof -
  have returned: "checked_doc [''tournaments'', drop_bangs ''Cup''] = Inr [''tournaments'', ''Cup'']"
    by (simp add: checked_doc_def drop_bangs_def)
  have failing: "failing_lookup [''tournaments'', ''Cup''] = Inl FirestoreError"
    by (simp add: failing_lookup_def)
  note f = title_lookup_failure [where doc = checked_doc and getDoc = failing_lookup
      and slugify = drop_bangs and t = "''Cup''" and e = FirestoreError and raw = cup_form
      and roundRobin = roundRobinTournament and env = cup_environment
      and usr = "Some \<lparr>sub = ''auth0|1''\<rparr>" and slug_state = "''cup''", OF returned failing]
  from f have "title_issues drop_bangs checked_doc failing_lookup ''Cup'' =
      title_issues drop_bangs checked_doc (\<lambda>r. Inr True) ''Cup''"
    by blast
  then have "title_issues drop_bangs checked_doc failing_lookup ''Cup'' =
      Inr [''Choose a different title'']"
    by (simp add: title_issues_def title_refine_def checked_doc_def drop_bangs_def)
  with f show ?thesis by (simp add: cup_form_def)
qed

text \<open>The one trace the failed lookup leaves that a duplicate does not: the console.\<close>

lemma title_refine_console:
  "console_error (title_refine slugify doc getDoc t) =
     (t \<noteq> [] \<and> (\<exists>tournamentRef e. doc [''tournaments'', slugify t] = Inr tournamentRef \<and>
                                    getDoc tournamentRef = Inl e))"
  by (auto simp: title_refine_def Let_def split: sum.splits)

section \<open>Submitting\<close>

text \<open>
  C8. Without a user, \<open>onSubmit\<close> shows the error toast and returns: it neither calls the
  scheduler nor writes to the database.
\<close>

theorem onSubmit_unauthenticated:
  "onSubmit roundRobin env None slug_state values =
     [Toast_error ''You must be logged in to create a tournament.''] \<and>
   filter is_scheduler_call (onSubmit roundRobin env None slug_state values) = [] \<and>
   filter is_persistence_write (onSubmit roundRobin env None slug_state values) = []"
  by (simp add: onSubmit_def)

theorem onSubmit_unauthenticated_witness:
  "onSubmit roundRobinTournament cup_environment None ''cup'' cup_values =
     [Toast_error ''You must be logged in to create a tournament.'']"
  using onSubmit_unauthenticated [of roundRobinTournament cup_environment "''cup''" cup_values]
  by simp

text \<open>With a user, the scheduler is called once and the batch is written and committed.\<close>

lemma onSubmit_authenticated:
  "filter is_scheduler_call (onSubmit roundRobin env (Some u) slug_state values) =
     [Scheduler_call (formattedPlayers (values_players values))] \<and>
   Batch_commit \<in> set (onSubmit roundRobin env (Some u) slug_state values)"
proof -
  have "filter is_scheduler_call (round_writes s r) = []" for s r
    by (simp add: round_writes_def filter_empty_conv)
  then have "filter is_scheduler_call (concat (map (round_writes s) rs)) = []" for s rs
    by (induction rs) simp_all
  then show ?thesis
    by (simp add: onSubmit_Some onSubmit_rest_def Let_def)
qed

text \<open>
  C9. For a number of players from 4 to 8 the \<open>switch\<close> computes \<open>n - 1\<close> when \<open>n\<close> is even and
  \<open>n\<close> when it is odd, and the rest of \<open>onSubmit\<close> does the same whatever value the variable
  holds.
\<close>

theorem numberOfRounds_unused:
  "(4 \<le> n \<and> n \<le> 8 \<longrightarrow> numberOfRounds n = (if even n then n - 1 else n)) \<and>
   onSubmit roundRobin env (Some u) slug_state values =
     onSubmit_rest roundRobin env u slug_state values
       (formattedPlayers (values_players values)) k"
proof -
  have "numberOfRounds n = (if even n then n - 1 else n)" if "4 \<le> n" "n \<le> 8"
  proof -
    from that have "n = 4 \<or> n = 5 \<or> n = 6 \<or> n = 7 \<or> n = 8" by arith
    then show ?thesis by (auto simp: numberOfRounds_def)
  qed
  moreover have "onSubmit roundRobin env (Some u) slug_state values =
     onSubmit_rest roundRobin env u slug_state values
       (formattedPlayers (values_players values)) k"
    by (simp add: onSubmit_Some onSubmit_rest_def)
  ultimately show ?thesis by blast
qed

theorem numberOfRounds_unused_witness:
  "numberOfRounds 4 = 3 \<and> numberOfRounds 5 = 5 \<and> numberOfRounds 6 = 5 \<and>
   numberOfRounds 7 = 7 \<and> numberOfRounds 8 = 7"
  using numberOfRounds_unused [of 4] numberOfRounds_unused [of 5] numberOfRounds_unused [of 6]
    numberOfRounds_unused [of 7] numberOfRounds_unused [of 8]
  by simp

section \<open>The scheduler commutes with renaming\<close>

lemma circle_map: "circle (map f ps) = map (map_option f) (circle ps)"
  by (simp add: circle_def)

lemma rotate_circle_map: "rotate_circle (map g c) = map g (rotate_circle c)"
  by (cases c) (simp_all add: rotate_circle_def last_map map_butlast)

lemma length_rotate_circle: "length (rotate_circle c) = length c"
  by (cases c) (simp_all add: rotate_circle_def)

lemma seat_pair_map:
  "seat_pair (map_option f a) (map_option f b) = map_option (rename_pair f) (seat_pair a b)"
  by (cases a; cases b) (simp_all add: rename_pair_def)

lemma seat_all_map:
  "\<forall>s\<in>set ss. fst s < length c \<and> snd s < length c \<Longrightarrow>
   seat_all (map (map_option f) c) ss = map (rename_pair f) (seat_all c ss)"
proof (induction ss)
  case Nil
  show ?case by simp
next
  case (Cons s ss)
  obtain i j where s: "s = (i, j)" by (cases s)
  with Cons.prems have "i < length c" "j < length c" by auto
  with Cons s show ?case
    by (simp add: seat_pair_map split: option.splits)
qed

lemma slots_in_range: "0 < n \<Longrightarrow> s \<in> set (slots n) \<Longrightarrow> fst s < n \<and> snd s < n"
  by (auto simp: slots_def)

lemma number_pairs_map:
  "number_pairs (map (rename_pair f) ms) = map (map_Pair f) (number_pairs ms)"
  by (simp add: number_pairs_def enumerate_eq_zip zip_map2 map_Pair_def rename_pair_def
      case_prod_unfold)

lemma make_round_map:
  "c \<noteq> [] \<Longrightarrow> make_round r (map (map_option f) c) = map_Round f (make_round r c)"
  by (simp add: make_round_def map_Round_def number_pairs_map seat_all_map slots_in_range)

lemma gen_rounds_map:
  "c \<noteq> [] \<Longrightarrow> gen_rounds k r (map (map_option f) c) = map (map_Round f) (gen_rounds k r c)"
proof (induction k arbitrary: r c)
  case 0
  show ?case by simp
next
  case (Suc k)
  from Suc.prems have "rotate_circle c \<noteq> []"
    using length_rotate_circle [of c] by auto
  with Suc show ?case
    by (simp add: make_round_map rotate_circle_map)
qed

lemma roundRobinTournament_map:
  "roundRobinTournament (map f ps) = map (map_Round f) (roundRobinTournament ps)"
proof (cases "ps = []")
  case True
  then show ?thesis by (simp add: roundRobinTournament_def circle_def)
next
  case False
  then have "circle ps \<noteq> []" by (simp add: circle_def)
  then show ?thesis
    by (simp add: roundRobinTournament_def Let_def circle_map gen_rounds_map)
qed

lemma length_gen_rounds: "length (gen_rounds k r c) = k"
  by (induction k arbitrary: r c) simp_all

lemma length_roundRobinTournament:
  "length (roundRobinTournament ps) = (if even (length ps) then length ps - 1 else length ps)"
  by (simp add: roundRobinTournament_def Let_def length_gen_rounds circle_def)

lemma seats_rename: "map (\<lambda>p. ps ! player_id p) (seats (length ps)) = ps"
  by (simp add: seats_def seat_def comp_def map_nth)

section \<open>The schedules of 4 to 8 players\<close>

lemma schedule_test_4: "schedule_test 4 (roundRobinTournament (seats 4))" by code_simp
lemma schedule_test_5: "schedule_test 5 (roundRobinTournament (seats 5))" by code_simp
lemma schedule_test_6: "schedule_test 6 (roundRobinTournament (seats 6))" by code_simp
lemma schedule_test_7: "schedule_test 7 (roundRobinTournament (seats 7))" by code_simp
lemma schedule_test_8: "schedule_test 8 (roundRobinTournament (seats 8))" by code_simp

lemma schedule_test_seats:
  assumes "4 \<le> n" "n \<le> 8"
  shows "schedule_test n (roundRobinTournament (seats n))"
proof -
  from assms have "n = 4 \<or> n = 5 \<or> n = 6 \<or> n = 7 \<or> n = 8" by arith
  then show ?thesis
    using schedule_test_4 schedule_test_5 schedule_test_6 schedule_test_7 schedule_test_8
    by blast
qed

subsection \<open>Renaming the players of a schedule\<close>

lemma all_pairs_map: "all_pairs (map (map_Round f) sched) = map (map_Pair f) (all_pairs sched)"
  by (simp add: all_pairs_def map_concat comp_def map_Round_def)

lemma is_bye_map [simp]: "is_bye (map_Pair f pr) = is_bye pr"
  by (simp add: is_bye_def map_Pair_def)

lemma length_real_pairings_map:
  "length (real_pairings (map (map_Round f) sched)) = length (real_pairings sched)"
  by (simp add: real_pairings_def all_pairs_map filter_map comp_def)

lemma byes_in_map: "byes_in (map_Round f r) = byes_in r"
  by (simp add: byes_in_def map_Round_def filter_map comp_def)

lemma pair_ids_map:
  "pair_ids (map_Pair (\<lambda>p. ps ! player_id p) pr) = map (\<lambda>i. player_id (ps ! i)) (pair_ids pr)"
  by (simp add: pair_ids_def map_Pair_def split: option.splits)

lemma round_player_ids_map:
  "round_player_ids (map_Round (\<lambda>p. ps ! player_id p) r) =
     map (\<lambda>i. player_id (ps ! i)) (round_player_ids r)"
  by (simp add: round_player_ids_def map_Round_def map_concat comp_def pair_ids_map)

lemma inj_on_ids:
  assumes "distinct (map player_id ps)"
  shows "inj_on (\<lambda>i. player_id (ps ! i)) {..<length ps}"
proof (rule inj_onI)
  fix a b assume ab: "a \<in> {..<length ps}" "b \<in> {..<length ps}"
    and eq: "player_id (ps ! a) = player_id (ps ! b)"
  from ab have "a < length (map player_id ps)" "b < length (map player_id ps)" by simp_all
  with assms have "(map player_id ps ! a = map player_id ps ! b) = (a = b)"
    by (rule nth_eq_iff_index_eq)
  with eq ab show "a = b" by simp
qed

lemma joins_map:
  assumes inj: "inj_on (\<lambda>i. player_id (ps ! i)) {..<n}"
    and "a < n" "b < n" "list_all (\<lambda>i. i < n) (pair_ids pr)"
  shows "joins (player_id (ps ! a)) (player_id (ps ! b)) (map_Pair (\<lambda>p. ps ! player_id p) pr) =
         joins a b pr"
  using assms(2-) inj_onD [OF inj]
  by (auto simp: joins_def map_Pair_def pair_ids_def split: option.splits)

lemma bye_of_map:
  assumes inj: "inj_on (\<lambda>i. player_id (ps ! i)) {..<n}"
    and "a < n" "list_all (\<lambda>i. i < n) (pair_ids pr)"
  shows "(is_bye (map_Pair (\<lambda>p. ps ! player_id p) pr) \<and>
          player_id (player1 (map_Pair (\<lambda>p. ps ! player_id p) pr)) = player_id (ps ! a)) =
         (is_bye pr \<and> player_id (player1 pr) = a)"
  using assms(2-) inj_onD [OF inj]
  by (auto simp: is_bye_def map_Pair_def pair_ids_def split: option.splits)

lemma meetings_map:
  assumes "inj_on (\<lambda>i. player_id (ps ! i)) {..<n}" "a < n" "b < n" "pairs_proper n sched"
  shows "meetings (player_id (ps ! a)) (player_id (ps ! b))
           (map (map_Round (\<lambda>p. ps ! player_id p)) sched) = meetings a b sched"
proof -
  have "filter (\<lambda>pr. joins (player_id (ps ! a)) (player_id (ps ! b))
                       (map_Pair (\<lambda>p. ps ! player_id p) pr)) (all_pairs sched) =
        filter (joins a b) (all_pairs sched)"
    using assms by (intro filter_cong refl joins_map) (auto simp: pairs_proper_def list_all_iff)
  then show ?thesis
    by (simp add: meetings_def all_pairs_map filter_map comp_def)
qed

lemma byes_of_map:
  assumes "inj_on (\<lambda>i. player_id (ps ! i)) {..<n}" "a < n" "pairs_proper n sched"
  shows "byes_of (player_id (ps ! a)) (map (map_Round (\<lambda>p. ps ! player_id p)) sched) =
         byes_of a sched"
proof -
  have "filter (\<lambda>pr. is_bye (map_Pair (\<lambda>p. ps ! player_id p) pr) \<and>
                     player_id (player1 (map_Pair (\<lambda>p. ps ! player_id p) pr)) = player_id (ps ! a))
          (all_pairs sched) =
        filter (\<lambda>pr. is_bye pr \<and> player_id (player1 pr) = a) (all_pairs sched)"
    using assms by (intro filter_cong refl bye_of_map) (auto simp: pairs_proper_def list_all_iff)
  then show ?thesis
    by (simp add: byes_of_def all_pairs_map filter_map comp_def)
qed

lemma roundRobinTournament_seats:
  "roundRobinTournament ps =
     map (map_Round (\<lambda>p. ps ! player_id p)) (roundRobinTournament (seats (length ps)))"
  using roundRobinTournament_map [of "\<lambda>p. ps ! player_id p" "seats (length ps)"]
  by (simp add: seats_rename)

lemma pair_players_map:
  assumes inj: "inj_on (\<lambda>i. player_id (ps ! i)) {..<length ps}"
    and proper: "distinct (pair_ids pr)" "list_all (\<lambda>i. i < length ps) (pair_ids pr)"
    and real: "\<not> is_bye pr"
  shows "player1 (map_Pair (\<lambda>p. ps ! player_id p) pr) \<in> set ps \<and>
         (\<exists>q\<in>set ps. player2 (map_Pair (\<lambda>p. ps ! player_id p) pr) = Some q \<and>
                      player_id q \<noteq> player_id (player1 (map_Pair (\<lambda>p. ps ! player_id p) pr)))"
proof -
  from real obtain q0 where q0: "player2 pr = Some q0" by (auto simp: is_bye_def)
  with proper have bounds: "player_id (player1 pr) < length ps" "player_id q0 < length ps"
    and diff: "player_id q0 \<noteq> player_id (player1 pr)"
    by (auto simp: pair_ids_def)
  from bounds diff inj_onD [OF inj]
  have "player_id (ps ! player_id q0) \<noteq> player_id (ps ! player_id (player1 pr))"
    by auto
  with bounds q0 show ?thesis by (simp add: map_Pair_def)
qed

lemma meet_onceD:
  assumes "meet_once n sched" "a < n" "b < n" "a \<noteq> b"
  shows "meetings a b sched = 1"
proof -
  from assms(1) have "\<forall>a\<in>{0..<n}. \<forall>b\<in>{0..<n}. a = b \<or> meetings a b sched = 1"
    by (simp add: meet_once_def list_all_iff)
  with assms(2,3) have "a = b \<or> meetings a b sched = 1"
    by (simp add: Ball_def)
  with assms(4) show ?thesis by simp
qed

text \<open>
  C1. For 4 to 8 players with distinct ids the schedule has \<open>n - 1\<close> rounds when \<open>n\<close> is even
  and \<open>n\<close> rounds when it is odd; its pairings of two players number \<open>n\<close> choose 2; any two
  different players of the input are joined by exactly one pairing of the whole schedule;
  and every such pairing joins two players of the input with different ids.
\<close>

theorem roundRobinTournament_each_pair_once:
  assumes "4 \<le> length ps" "length ps \<le> 8" "distinct (map player_id ps)"
  shows "length (roundRobinTournament ps) = (if even (length ps) then length ps - 1 else length ps) \<and>
         length (real_pairings (roundRobinTournament ps)) = length ps choose 2 \<and>
         (\<forall>p\<in>set ps. \<forall>q\<in>set ps. p \<noteq> q \<longrightarrow>
            meetings (player_id p) (player_id q) (roundRobinTournament ps) = 1) \<and>
         (\<forall>pr\<in>set (real_pairings (roundRobinTournament ps)).
            player1 pr \<in> set ps \<and>
            (\<exists>q\<in>set ps. player2 pr = Some q \<and> player_id q \<noteq> player_id (player1 pr)))"
proof -
  let ?n = "length ps"
  let ?f = "\<lambda>p. ps ! player_id p"
  let ?S = "roundRobinTournament (seats ?n)"
  have renamed: "roundRobinTournament ps = map (map_Round ?f) ?S"
    by (rule roundRobinTournament_seats)
  have inj: "inj_on (\<lambda>i. player_id (ps ! i)) {..<?n}"
    using assms(3) by (rule inj_on_ids)
  have test: "schedule_test ?n ?S"
    using assms(1,2) by (rule schedule_test_seats)
  then have proper: "pairs_proper ?n ?S" and once: "meet_once ?n ?S"
    and count: "length (real_pairings ?S) = ?n * (?n - 1) div 2"
    by (simp_all add: schedule_test_def)
  have rounds: "length (roundRobinTournament ps) = (if even ?n then ?n - 1 else ?n)"
    by (rule length_roundRobinTournament)
  have total: "length (real_pairings (roundRobinTournament ps)) = ?n choose 2"
    by (simp add: renamed length_real_pairings_map count choose_two)
  have meet: "meetings (player_id p) (player_id q) (roundRobinTournament ps) = 1"
    if "p \<in> set ps" "q \<in> set ps" "p \<noteq> q" for p q
  proof -
    from that obtain a b where ab: "a < ?n" "b < ?n" "p = ps ! a" "q = ps ! b"
      by (auto simp: in_set_conv_nth)
    with that have "a \<noteq> b" by auto
    with once ab have "meetings a b ?S = 1"
      by (simp add: meet_onceD)
    with meetings_map [OF inj ab(1,2) proper] ab show ?thesis
      by (simp add: renamed)
  qed
  have players: "player1 pr \<in> set ps \<and>
      (\<exists>q\<in>set ps. player2 pr = Some q \<and> player_id q \<noteq> player_id (player1 pr))"
    if "pr \<in> set (real_pairings (roundRobinTournament ps))" for pr
  proof -
    from that obtain pr0 where pr0: "pr0 \<in> set (all_pairs ?S)" "pr = map_Pair ?f pr0" "\<not> is_bye pr0"
      by (auto simp: renamed real_pairings_def all_pairs_map)
    with proper have "distinct (pair_ids pr0)" "list_all (\<lambda>i. i < ?n) (pair_ids pr0)"
      by (auto simp: pairs_proper_def list_all_iff)
    with pr0 show ?thesis
      using pair_players_map [OF inj] by blast
  qed
  from rounds total meet players show ?thesis by blast
qed

theorem roundRobinTournament_each_pair_once_witness:
  "length (roundRobinTournament four_players) = 3 \<and>
   length (real_pairings (roundRobinTournament four_players)) = 6 \<and>
   meetings 0 3 (roundRobinTournament four_players) = 1 \<and>
   length (roundRobinTournament five_players) = 5 \<and>
   length (real_pairings (roundRobinTournament five_players)) = 10 \<and>
   meetings 4 2 (roundRobinTournament five_players) = 1"
proof -
  have four: "4 \<le> length four_players" "length four_players \<le> 8"
      "distinct (map player_id four_players)"
    by (simp_all add: four_players_def)
  have five: "4 \<le> length five_players" "length five_players \<le> 8"
      "distinct (map player_id five_players)"
    by (simp_all add: five_players_def four_players_def)
  note r4 = roundRobinTournament_each_pair_once [OF four]
  note r5 = roundRobinTournament_each_pair_once [OF five]
  from r4 have m4: "\<forall>p\<in>set four_players. \<forall>q\<in>set four_players. p \<noteq> q \<longrightarrow>
            meetings (player_id p) (player_id q) (roundRobinTournament four_players) = 1"
    by blast
  from r5 have m5: "\<forall>p\<in>set five_players. \<forall>q\<in>set five_players. p \<noteq> q \<longrightarrow>
            meetings (player_id p) (player_id q) (roundRobinTournament five_players) = 1"
    by blast
  from m4 have "meetings 0 3 (roundRobinTournament four_players) = 1"
    by (simp add: four_players_def)
  moreover from m5 have "meetings 4 2 (roundRobinTournament five_players) = 1"
    by (simp add: five_players_def four_players_def)
  moreover from r4 have "length (roundRobinTournament four_players) = 3"
    "length (real_pairings (roundRobinTournament four_players)) = 6"
    by (simp_all add: four_players_def choose_two)
  moreover from r5 have "length (roundRobinTournament five_players) = 5"
    "length (real_pairings (roundRobinTournament five_players)) = 10"
    by (simp_all add: five_players_def four_players_def choose_two)
  ultimately show ?thesis by simp
qed

text \<open>
  C2. For 4 to 8 players with distinct ids, in every round of the schedule no player id
  occurs twice among the players of its pairings.
\<close>

theorem roundRobinTournament_round_disjoint:
  assumes "4 \<le> length ps" "length ps \<le> 8" "distinct (map player_id ps)"
  shows "\<forall>r\<in>set (roundRobinTournament ps). distinct (round_player_ids r)"
proof
  fix r assume r: "r \<in> set (roundRobinTournament ps)"
  let ?n = "length ps"
  let ?f = "\<lambda>p. ps ! player_id p"
  let ?S = "roundRobinTournament (seats ?n)"
  have inj: "inj_on (\<lambda>i. player_id (ps ! i)) {..<?n}"
    using assms(3) by (rule inj_on_ids)
  have "schedule_test ?n ?S"
    using assms(1,2) by (rule schedule_test_seats)
  then have proper: "pairs_proper ?n ?S" and disjoint: "rounds_disjoint ?S"
    by (simp_all add: schedule_test_def)
  from r obtain r0 where r0: "r0 \<in> set ?S" "r = map_Round ?f r0"
    using roundRobinTournament_seats [of ps] by auto
  from r0 disjoint have d0: "distinct (round_player_ids r0)"
    by (simp add: rounds_disjoint_def list_all_iff)
  from r0 proper have "set (round_player_ids r0) \<subseteq> {..<?n}"
    by (fastforce simp: pairs_proper_def list_all_iff round_player_ids_def all_pairs_def)
  with inj have "inj_on (\<lambda>i. player_id (ps ! i)) (set (round_player_ids r0))"
    by (rule inj_on_subset)
  with d0 show "distinct (round_player_ids r)"
    by (simp add: r0 round_player_ids_map distinct_map)
qed

theorem roundRobinTournament_round_disjoint_witness:
  "list_all (\<lambda>r. distinct (round_player_ids r)) (roundRobinTournament four_players) \<and>
   list_all (\<lambda>r. distinct (round_player_ids r)) (roundRobinTournament five_players)"
proof -
  have four: "4 \<le> length four_players" "length four_players \<le> 8"
      "distinct (map player_id four_players)"
    by (simp_all add: four_players_def)
  have five: "4 \<le> length five_players" "length five_players \<le> 8"
      "distinct (map player_id five_players)"
    by (simp_all add: five_players_def four_players_def)
  from roundRobinTournament_round_disjoint [OF four] roundRobinTournament_round_disjoint [OF five]
  show ?thesis by (simp add: list_all_iff)
qed

text \<open>
  C3. For 5 or 7 players with distinct ids, every player has exactly one bye in the whole
  schedule and every round holds exactly one bye.
\<close>

theorem roundRobinTournament_byes:
  assumes "length ps = 5 \<or> length ps = 7" "distinct (map player_id ps)"
  shows "(\<forall>p\<in>set ps. byes_of (player_id p) (roundRobinTournament ps) = 1) \<and>
         (\<forall>r\<in>set (roundRobinTournament ps). byes_in r = 1)"
proof -
  let ?n = "length ps"
  let ?f = "\<lambda>p. ps ! player_id p"
  let ?S = "roundRobinTournament (seats ?n)"
  have renamed: "roundRobinTournament ps = map (map_Round ?f) ?S"
    by (rule roundRobinTournament_seats)
  have inj: "inj_on (\<lambda>i. player_id (ps ! i)) {..<?n}"
    using assms(2) by (rule inj_on_ids)
  from assms(1) have "4 \<le> ?n" "?n \<le> 8" "odd ?n" by auto
  then have "schedule_test ?n ?S" "odd ?n"
    by (simp_all add: schedule_test_seats)
  then have proper: "pairs_proper ?n ?S" and byes: "one_bye_each ?n ?S"
    by (simp_all add: schedule_test_def)
  have each: "byes_of (player_id p) (roundRobinTournament ps) = 1" if "p \<in> set ps" for p
  proof -
    from that obtain a where a: "a < ?n" "p = ps ! a"
      by (auto simp: in_set_conv_nth)
    with byes have "byes_of a ?S = 1"
      by (simp add: one_bye_each_def list_all_iff)
    with byes_of_map [OF inj a(1) proper] a show ?thesis
      by (simp add: renamed)
  qed
  have per_round: "byes_in r = 1" if "r \<in> set (roundRobinTournament ps)" for r
  proof -
    from that obtain r0 where r0: "r0 \<in> set ?S" "r = map_Round ?f r0"
      by (auto simp: renamed)
    with byes show ?thesis
      by (simp add: one_bye_each_def list_all_iff byes_in_map)
  qed
  from each per_round show ?thesis by blast
qed

theorem roundRobinTournament_byes_witness:
  "byes_of 3 (roundRobinTournament five_players) = 1 \<and>
   list_all (\<lambda>r. byes_in r = 1) (roundRobinTournament five_players)"
proof -
  have five: "length five_players = 5 \<or> length five_players = 7"
      "distinct (map player_id five_players)"
    by (simp_all add: five_players_def four_players_def)
  note b = roundRobinTournament_byes [OF five]
  from b have "\<forall>p\<in>set five_players. byes_of (player_id p) (roundRobinTournament five_players) = 1"
    by blast
  then have "byes_of 3 (roundRobinTournament five_players) = 1"
    by (simp add: five_players_def four_players_def)
  with b show ?thesis by (simp add: list_all_iff)
qed

end
